theory Spec2Isabelle
  imports Main
begin

unbundle bit_operations_syntax

section \<open>JavaScript numbers that hold integers\<close>

text \<open>
  Every number of \<^verbatim>\<open>src/index.js\<close> is a JavaScript Number, an IEEE-754 double. The
  amounts of the data model are integers, so a finite Number is represented by the
  integer it denotes; the results of \<^verbatim>\<open>+\<close> and \<^verbatim>\<open>-\<close> are rounded to the nearest
  double (ties to even) and overflow to an infinity, as the language prescribes.
  \<^verbatim>\<open>NaN\<close> arises from \<^verbatim>\<open>Infinity - Infinity\<close> and from adding \<^verbatim>\<open>undefined\<close>.
  Negative zero is identified with zero: no operation of the program tells them apart.
  \<open>Fin n\<close> is a Number when \<open>n\<close> has a 53-bit significand and lies below \<open>2 ^ 1024\<close>
  in magnitude; the operations below return only such values.
\<close>

datatype number = Fin int | PosInf | NegInf | NaN

function bit_length :: "nat \<Rightarrow> nat" where
  "bit_length n = (if n = 0 then 0 else bit_length (n div 2) + 1)"
  by pat_completeness auto
termination
  by (relation "measure (\<lambda>n. n)") auto

declare bit_length.simps [simp del]

definition round_nat :: "nat \<Rightarrow> nat" where
  \<comment> \<open>nearest natural number with a 53-bit significand, ties to the even significand\<close>
  "round_nat n =
     (let k = bit_length n - 53;
          m = n div 2 ^ k;
          r = n mod 2 ^ k
      in if 2 ^ k < 2 * r \<or> (2 * r = 2 ^ k \<and> odd m) then (m + 1) * 2 ^ k else m * 2 ^ k)"

definition to_double :: "int \<Rightarrow> number" where
  "to_double x =
     (let r = round_nat (nat \<bar>x\<bar>)
      in if 2 ^ 1024 \<le> r then (if x < 0 then NegInf else PosInf)
         else Fin (if x < 0 then - int r else int r))"

fun js_add :: "number \<Rightarrow> number \<Rightarrow> number" where
  "js_add NaN _ = NaN"
| "js_add _ NaN = NaN"
| "js_add PosInf NegInf = NaN"
| "js_add NegInf PosInf = NaN"
| "js_add PosInf _ = PosInf"
| "js_add _ PosInf = PosInf"
| "js_add NegInf _ = NegInf"
| "js_add _ NegInf = NegInf"
| "js_add (Fin a) (Fin b) = to_double (a + b)"

fun js_neg :: "number \<Rightarrow> number" where
  "js_neg (Fin a) = Fin (- a)"
| "js_neg PosInf = NegInf"
| "js_neg NegInf = PosInf"
| "js_neg NaN = NaN"

definition js_sub :: "number \<Rightarrow> number \<Rightarrow> number" where
  "js_sub x y = js_add x (js_neg y)"

fun js_le_zero :: "number \<Rightarrow> bool" where
  \<comment> \<open>\<^verbatim>\<open>x <= 0\<close>; every comparison with \<^verbatim>\<open>NaN\<close> is false\<close>
  "js_le_zero (Fin a) = (a \<le> 0)"
| "js_le_zero PosInf = False"
| "js_le_zero NegInf = True"
| "js_le_zero NaN = False"

fun or_zero :: "number option \<Rightarrow> number" where
  \<comment> \<open>\<^verbatim>\<open>x || 0\<close>: \<^verbatim>\<open>undefined\<close>, \<^verbatim>\<open>0\<close> and \<^verbatim>\<open>NaN\<close> are falsy\<close>
  "or_zero None = Fin 0"
| "or_zero (Some NaN) = Fin 0"
| "or_zero (Some x) = x"

fun to_number :: "number option \<Rightarrow> number" where
  \<comment> \<open>the operand of \<^verbatim>\<open>+=\<close>: \<^verbatim>\<open>undefined\<close> converts to \<^verbatim>\<open>NaN\<close>\<close>
  "to_number None = NaN"
| "to_number (Some x) = x"

fun or_empty :: "string option \<Rightarrow> string" where
  \<comment> \<open>\<^verbatim>\<open>s || ''\<close>\<close>
  "or_empty None = []"
| "or_empty (Some s) = s"

fun or_nil :: "'a list option \<Rightarrow> 'a list" where
  \<comment> \<open>\<^verbatim>\<open>xs || []\<close>\<close>
  "or_nil None = []"
| "or_nil (Some xs) = xs"

section \<open>Transactions\<close>

text \<open>
  The objects parsed from the mempool files and the coinbase literal, with the members
  the program reads or writes. A member that is absent from the object is \<open>None\<close>.
  \<open>value_num\<close> is the member \<^verbatim>\<open>value\<close>; \<open>tx_version\<close> and \<open>tx_locktime\<close> are the
  members \<^verbatim>\<open>version\<close> and \<^verbatim>\<open>locktime\<close> of a transaction.
\<close>

record tx_output =
  txid :: "string option"
  scriptpubkey :: "string option"
  scriptpubkey_asm :: "string option"
  scriptpubkey_type :: "string option"
  scriptpubkey_address :: "string option"
  value_num :: "number option"

record tx_input =
  prevout :: "tx_output option"

record transaction =
  tx_version :: "number option"
  tx_locktime :: "number option"
  vin :: "tx_input list option"
  vout :: "tx_output list option"

definition no_output :: tx_output where
  \<comment> \<open>the empty object \<^verbatim>\<open>{}\<close>\<close>
  "no_output = \<lparr>txid = None, scriptpubkey = None, scriptpubkey_asm = None,
     scriptpubkey_type = None, scriptpubkey_address = None, value_num = None\<rparr>"

subsection \<open>validateTransaction\<close>

definition startsWith :: "string \<Rightarrow> string \<Rightarrow> bool" where
  "startsWith s p = (take (length p) s = p)"

definition includes_str :: "string list \<Rightarrow> string \<Rightarrow> bool" where
  "includes_str xs x = List.member xs x"

definition checks_fail :: "tx_output \<Rightarrow> bool" where
  \<comment> \<open>the three \<^verbatim>\<open>return false\<close> tests, in the order of the source\<close>
  "checks_fail p =
     (let type_text = or_empty (scriptpubkey_type p);
          address_text = or_empty (scriptpubkey_address p);
          amount_num = or_zero (value_num p)
      in if \<not> includes_str [''v0_p2wpkh'', ''v1_p2tr''] type_text then True
         else if \<not> startsWith address_text ''bc1'' then True
         else if js_le_zero amount_num then True
         else False)"

fun validate_vin :: "tx_input list \<Rightarrow> bool" where
  "validate_vin [] = True"
| "validate_vin (i # rest) =
     (let p = (case prevout i of None \<Rightarrow> no_output | Some q \<Rightarrow> q)
      in if checks_fail p then False else validate_vin rest)"

fun validate_vout :: "tx_output list \<Rightarrow> bool" where
  "validate_vout [] = True"
| "validate_vout (out # rest) = (if checks_fail out then False else validate_vout rest)"

definition validateTransaction :: "transaction \<Rightarrow> bool" where
  "validateTransaction t =
     (if \<not> validate_vin (or_nil (vin t)) then False else validate_vout (or_nil (vout t)))"

text \<open>The reading of the rule in the specification, on one input or output.\<close>

fun positive :: "number option \<Rightarrow> bool" where
  "positive (Some (Fin a)) = (0 < a)"
| "positive (Some PosInf) = True"
| "positive _ = False"

definition passes :: "tx_output \<Rightarrow> bool" where
  "passes p =
     ((scriptpubkey_type p = Some ''v0_p2wpkh'' \<or> scriptpubkey_type p = Some ''v1_p2tr'')
      \<and> (case scriptpubkey_address p of None \<Rightarrow> False | Some a \<Rightarrow> take 3 a = ''bc1'')
      \<and> positive (value_num p))"

definition spent :: "tx_input \<Rightarrow> tx_output" where
  "spent i = (case prevout i of None \<Rightarrow> no_output | Some q \<Rightarrow> q)"

subsection \<open>Fee accumulation\<close>

text \<open>
  Lines 32 to 40. Reading a member of \<^verbatim>\<open>undefined\<close> (an absent \<^verbatim>\<open>vin\<close>, \<^verbatim>\<open>vout\<close> or
  \<^verbatim>\<open>prevout\<close>) throws a \<^verbatim>\<open>TypeError\<close> that nothing catches; an absent \<^verbatim>\<open>value\<close>
  is \<^verbatim>\<open>undefined\<close> and turns the accumulator into \<^verbatim>\<open>NaN\<close>.
\<close>

datatype error = TypeError

fun fee_inputs :: "number \<Rightarrow> tx_input list \<Rightarrow> error + number" where
  "fee_inputs acc [] = Inr acc"
| "fee_inputs acc (i # rest) =
     (case prevout i of
        None \<Rightarrow> Inl TypeError
      | Some p \<Rightarrow> fee_inputs (js_add acc (to_number (value_num p))) rest)"

fun fee_outputs :: "number \<Rightarrow> tx_output list \<Rightarrow> number" where
  "fee_outputs acc [] = acc"
| "fee_outputs acc (out # rest) = fee_outputs (js_sub acc (to_number (value_num out))) rest"

fun fee_loop :: "number \<Rightarrow> transaction list \<Rightarrow> error + number" where
  "fee_loop acc [] = Inr acc"
| "fee_loop acc (t # rest) =
     (case vin t of
        None \<Rightarrow> Inl TypeError
      | Some ins \<Rightarrow>
          (case fee_inputs acc ins of
             Inl e \<Rightarrow> Inl e
           | Inr acc1 \<Rightarrow>
               (case vout t of
                  None \<Rightarrow> Inl TypeError
                | Some outs \<Rightarrow> fee_loop (fee_outputs acc1 outs) rest)))"

definition totalFees :: "transaction list \<Rightarrow> error + number" where
  "totalFees validTransactions = fee_loop (Fin 0) validTransactions"

subsection \<open>The coinbase transaction\<close>

definition coinbaseTransaction :: "number \<Rightarrow> transaction" where
  "coinbaseTransaction fees =
     \<lparr>tx_version = Some (Fin 1),
      tx_locktime = Some (Fin 0),
      vin = Some [\<lparr>prevout = Some
        \<lparr>txid = Some ''0000000000000000000000000000000000000000000000000000000000000000'',
         scriptpubkey = None, scriptpubkey_asm = None, scriptpubkey_type = None,
         scriptpubkey_address = None,
         value_num = Some (js_add (Fin 2500000) fees)\<rparr>\<rparr>],
      vout = Some
        [\<lparr>txid = None,
          scriptpubkey = Some ''76a9146085312a9c500ff9cc35b571b0a1e5efb7fb9f1688ac'',
          scriptpubkey_asm = Some ''OP_DUP OP_HASH160 OP_PUSHBYTES_20 6085312a9c500ff9cc35b571b0a1e5efb7fb9f16 OP_EQUALVERIFY OP_CHECKSIG'',
          scriptpubkey_type = Some ''p2pkh'',
          scriptpubkey_address = Some ''19oMRmCWMYuhnP5W61ABrjjxHc6RphZh11'',
          value_num = Some (Fin 0)\<rparr>]\<rparr>"

text \<open>What the fee formula of the specification sums, read off a transaction.\<close>

fun amount :: "number option \<Rightarrow> int" where
  "amount (Some (Fin a)) = a"
| "amount _ = 0"

fun is_amount :: "number option \<Rightarrow> bool" where
  "is_amount (Some (Fin a)) = True"
| "is_amount _ = False"

definition mag :: "number option list \<Rightarrow> int" where
  "mag vs = sum_list (map (\<lambda>v. \<bar>amount v\<bar>) vs)"

definition tot :: "number option list \<Rightarrow> int" where
  "tot vs = sum_list (map amount vs)"

definition in_values :: "transaction \<Rightarrow> number option list" where
  "in_values t = map (\<lambda>i. value_num (spent i)) (or_nil (vin t))"

definition out_values :: "transaction \<Rightarrow> number option list" where
  "out_values t = map value_num (or_nil (vout t))"

definition sum_in :: "transaction list \<Rightarrow> int" where
  "sum_in ts = sum_list (map amount (concat (map in_values ts)))"

definition sum_out :: "transaction list \<Rightarrow> int" where
  "sum_out ts = sum_list (map amount (concat (map out_values ts)))"

definition well_formed :: "transaction \<Rightarrow> bool" where
  \<comment> \<open>both lists are present, every input has its previous output, every value is a finite number\<close>
  "well_formed t =
     (vin t \<noteq> None \<and> vout t \<noteq> None \<and> list_all (\<lambda>i. prevout i \<noteq> None) (or_nil (vin t))
      \<and> list_all is_amount (in_values t) \<and> list_all is_amount (out_values t))"

definition volume :: "transaction list \<Rightarrow> int" where
  \<comment> \<open>the sum of the magnitudes of all values\<close>
  "volume ts = sum_list (map (\<lambda>v. \<bar>amount v\<bar>) (concat (map in_values ts) @ concat (map out_values ts)))"

fun plus_result :: "error + number \<Rightarrow> error + number \<Rightarrow> error + number" where
  "plus_result (Inr a) (Inr b) = Inr (js_add a b)"
| "plus_result (Inl e) _ = Inl e"
| "plus_result _ (Inl e) = Inl e"

section \<open>Buffers, hexadecimal text and decimal text\<close>

text \<open>
  A \<^verbatim>\<open>Buffer\<close> is a list of octets, each a natural number below 256. A string is a list
  of characters; \<^verbatim>\<open>update\<close> hashes the UTF-8 octets of a string, which are its characters.
\<close>

type_synonym buffer = "nat list"

definition utf8 :: "string \<Rightarrow> buffer" where
  "utf8 s = map of_char s"

definition unhex :: "char \<Rightarrow> nat option" where
  \<comment> \<open>the value of a hexadecimal digit of either case\<close>
  "unhex c =
     (let n = (of_char c :: nat)
      in if 48 \<le> n \<and> n \<le> 57 then Some (n - 48)
         else if 97 \<le> n \<and> n \<le> 102 then Some (n - 87)
         else if 65 \<le> n \<and> n \<le> 70 then Some (n - 55)
         else None)"

fun hex_decode :: "string \<Rightarrow> buffer" where
  \<comment> \<open>\<^verbatim>\<open>Buffer.from(s, "hex")\<close>: one octet for each pair of digits, up to the first pair
      that is not two hexadecimal digits; a last unpaired character is dropped\<close>
  "hex_decode (a # b # rest) =
     (case unhex a of
        None \<Rightarrow> []
      | Some x \<Rightarrow> (case unhex b of None \<Rightarrow> [] | Some y \<Rightarrow> (16 * x + y) # hex_decode rest))"
| "hex_decode _ = []"

definition hex_byte :: "nat \<Rightarrow> string" where
  "hex_byte b = [''0123456789abcdef'' ! (b div 16), ''0123456789abcdef'' ! (b mod 16)]"

definition hex_encode :: "buffer \<Rightarrow> string" where
  \<comment> \<open>\<^verbatim>\<open>digest("hex")\<close> and \<^verbatim>\<open>toString("hex")\<close>: two lower-case digits for each octet\<close>
  "hex_encode bs = concat (map hex_byte bs)"

function toString :: "nat \<Rightarrow> string" where
  \<comment> \<open>\<^verbatim>\<open>n.toString()\<close> and \<^verbatim>\<open>${n}\<close> for a non-negative integer below \<open>10 ^ 21\<close>: its decimal numeral\<close>
  "toString n =
     (if n < 10 then [''0123456789'' ! n] else toString (n div 10) @ [''0123456789'' ! (n mod 10)])"
  by pat_completeness auto
termination
  by (relation "measure (\<lambda>n. n)") auto

declare toString.simps [simp del]

section \<open>SHA-256\<close>

text \<open>
  \<^verbatim>\<open>crypto.createHash("sha256")\<close> is SHA-256 of FIPS 180-4, on 32-bit words held as
  natural numbers with the reduction modulo \<open>2 ^ 32\<close> written out.
\<close>

definition add32 :: "nat \<Rightarrow> nat \<Rightarrow> nat" where
  "add32 x y = (x + y) mod 4294967296"

definition rotr :: "nat \<Rightarrow> nat \<Rightarrow> nat" where
  "rotr n x = x div 2 ^ n + (x mod 2 ^ n) * 2 ^ (32 - n)"

definition shr :: "nat \<Rightarrow> nat \<Rightarrow> nat" where
  "shr n x = x div 2 ^ n"

definition not32 :: "nat \<Rightarrow> nat" where
  "not32 x = 4294967295 - x"

definition Ch :: "nat \<Rightarrow> nat \<Rightarrow> nat \<Rightarrow> nat" where
  "Ch e f g = (e AND f) XOR (not32 e AND g)"

definition Maj :: "nat \<Rightarrow> nat \<Rightarrow> nat \<Rightarrow> nat" where
  "Maj a b c = (a AND b) XOR (a AND c) XOR (b AND c)"

definition bsig0 :: "nat \<Rightarrow> nat" where
  "bsig0 x = rotr 2 x XOR rotr 13 x XOR rotr 22 x"

definition bsig1 :: "nat \<Rightarrow> nat" where
  "bsig1 x = rotr 6 x XOR rotr 11 x XOR rotr 25 x"

definition ssig0 :: "nat \<Rightarrow> nat" where
  "ssig0 x = rotr 7 x XOR rotr 18 x XOR shr 3 x"

definition ssig1 :: "nat \<Rightarrow> nat" where
  "ssig1 x = rotr 17 x XOR rotr 19 x XOR shr 10 x"

text \<open>The round constants and the initial hash value of the standard, in decimal.\<close>

definition K256 :: "nat list" where
  "K256 = [
   1116352408, 1899447441, 3049323471, 3921009573, 961987163, 1508970993, 2453635748, 2870763221,
   3624381080, 310598401, 607225278, 1426881987, 1925078388, 2162078206, 2614888103, 3248222580,
   3835390401, 4022224774, 264347078, 604807628, 770255983, 1249150122, 1555081692, 1996064986,
   2554220882, 2821834349, 2952996808, 3210313671, 3336571891, 3584528711, 113926993, 338241895,
   666307205, 773529912, 1294757372, 1396182291, 1695183700, 1986661051, 2177026350, 2456956037,
   2730485921, 2820302411, 3259730800, 3345764771, 3516065817, 3600352804, 4094571909, 275423344,
   430227734, 506948616, 659060556, 883997877, 958139571, 1322822218, 1537002063, 1747873779,
   1955562222, 2024104815, 2227730452, 2361852424, 2428436474, 2756734187, 3204031479, 3329325298]"

definition H0 :: "nat list" where
  "H0 = [1779033703, 3144134277, 1013904242, 2773480762,
         1359893119, 2600822924, 528734635, 1541459225]"

fun be32 :: "buffer \<Rightarrow> nat list" where
  \<comment> \<open>big-endian words of a block\<close>
  "be32 (a # b # c # d # rest) = (a * 16777216 + b * 65536 + c * 256 + d) # be32 rest"
| "be32 _ = []"

definition word_bytes :: "nat \<Rightarrow> buffer" where
  "word_bytes w = [w div 16777216, (w div 65536) mod 256, (w div 256) mod 256, w mod 256]"

definition pad :: "buffer \<Rightarrow> buffer" where
  \<comment> \<open>the message, the octet 0x80, zeros up to 56 modulo 64, the bit length in 8 octets\<close>
  "pad m =
     (let l = length m
      in m @ [128] @ replicate ((119 - l mod 64) mod 64) 0 @
         map (\<lambda>i. (8 * l) div 256 ^ (7 - i) mod 256) [0, 1, 2, 3, 4, 5, 6, 7])"

fun sched :: "nat \<Rightarrow> nat list \<Rightarrow> nat list" where
  \<comment> \<open>the message schedule, newest word first: \<open>n\<close> more words from the sixteen before\<close>
  "sched 0 ws = ws"
| "sched (Suc n) ws =
     sched n (add32 (add32 (add32 (ssig1 (ws ! 1)) (ws ! 6)) (ssig0 (ws ! 14))) (ws ! 15) # ws)"

fun rounds :: "nat list \<Rightarrow> nat list \<Rightarrow> nat list \<Rightarrow> nat list" where
  "rounds (k # ks) (w # ws) [a, b, c, d, e, f, g, h] =
     (let t1 = add32 (add32 (add32 (add32 h (bsig1 e)) (Ch e f g)) k) w;
          t2 = add32 (bsig0 a) (Maj a b c)
      in rounds ks ws [add32 t1 t2, a, b, c, add32 d t1, e, f, g])"
| "rounds _ _ st = st"

definition compress :: "nat list \<Rightarrow> buffer \<Rightarrow> nat list" where
  "compress st blk = map2 add32 st (rounds K256 (rev (sched 48 (rev (be32 blk)))) st)"

function blocks :: "nat list \<Rightarrow> buffer \<Rightarrow> nat list" where
  "blocks st bs =
     (if length bs < 64 then st else blocks (compress st (take 64 bs)) (drop 64 bs))"
  by pat_completeness auto
termination
  by (relation "measure (\<lambda>(st, bs). length bs)") auto

declare blocks.simps [simp del]

definition sha256 :: "buffer \<Rightarrow> buffer" where
  "sha256 m = concat (map word_bytes (blocks H0 (pad m)))"

section \<open>The Merkle root\<close>

definition combine :: "string \<Rightarrow> string \<Rightarrow> string" where
  \<comment> \<open>lines 201 to 203: the hash of the two decoded hashes, one after the other\<close>
  "combine hash1 hash2 = hex_encode (sha256 (hex_decode hash1 @ hex_decode hash2))"

function level_loop :: "string list \<Rightarrow> nat \<Rightarrow> string list \<Rightarrow> string list" where
  \<comment> \<open>the \<^verbatim>\<open>for\<close> loop of lines 198 to 204; \<^verbatim>\<open>hashes[i + 1] || hash1\<close> takes \<^verbatim>\<open>hash1\<close>
      when the index is out of range or the string there is empty\<close>
  "level_loop hashes i newHashes =
     (if i < length hashes then
        (let hash1 = hashes ! i;
             hash2 = (if i + 1 < length hashes \<and> hashes ! (i + 1) \<noteq> [] then hashes ! (i + 1)
                      else hash1)
         in level_loop hashes (i + 2) (newHashes @ [combine hash1 hash2]))
      else newHashes)"
  by pat_completeness auto
termination
  by (relation "measure (\<lambda>(hashes, i, newHashes). length hashes - i)") auto

declare level_loop.simps [simp del]

partial_function (option) merkleRoot :: "string list \<Rightarrow> string option" where
  "merkleRoot hashes =
     (if length hashes = 1 then Some (hashes ! 0)
      else merkleRoot (level_loop hashes 0 []))"

definition getMerkleRoot :: "(transaction \<Rightarrow> string) \<Rightarrow> transaction list \<Rightarrow> string option" where
  \<comment> \<open>\<open>stringify\<close> is \<^verbatim>\<open>JSON.stringify\<close>; \<open>None\<close> is a recursion that never returns\<close>
  "getMerkleRoot stringify transactions =
     merkleRoot (map (\<lambda>transaction. hex_encode (sha256 (utf8 (stringify transaction))))
       transactions)"

section \<open>The block header and the mining loop\<close>

text \<open>
  The three numbers of a header are non-negative integers: \<^verbatim>\<open>version\<close> is 1,
  \<^verbatim>\<open>timestamp\<close> is \<^verbatim>\<open>Math.floor(Date.now() / 1000)\<close> and \<^verbatim>\<open>nonce\<close> counts up from 0.
  They stay below \<open>10 ^ 21\<close>, where the text of a number is its decimal numeral (the
  nonce cannot pass \<open>2 ^ 53\<close>, where adding 1 no longer changes a double).
  \<open>merkleRoot_field\<close> is the member \<^verbatim>\<open>merkleRoot\<close>.
\<close>

record blockHeader =
  version :: nat
  prevBlockHash :: string
  merkleRoot_field :: string
  timestamp :: nat
  bits :: string
  nonce :: nat

definition getBlockHash :: "blockHeader \<Rightarrow> string" where
  "getBlockHash blockHeader =
     (let blockHeaderBuffer = concat
        [hex_decode (toString (version blockHeader)),
         hex_decode (prevBlockHash blockHeader),
         hex_decode (merkleRoot_field blockHeader),
         hex_decode (toString (timestamp blockHeader)),
         hex_decode (bits blockHeader),
         hex_decode (toString (nonce blockHeader))]
      in hex_encode (sha256 (sha256 blockHeaderBuffer)))"

definition getBlockHeaderString :: "blockHeader \<Rightarrow> string" where
  "getBlockHeaderString blockHeader =
     toString (version blockHeader) @ '' '' @ prevBlockHash blockHeader @ '' '' @
     merkleRoot_field blockHeader @ '' '' @ toString (timestamp blockHeader) @ '' '' @
     bits blockHeader @ '' '' @ toString (nonce blockHeader)"

text \<open>
  The header hash in the words of the specification: each number is written in base
  10 and the decimal digits are then read two by two as the digits of octets; the six
  encodings are concatenated in the order of the fields and hashed twice.
\<close>

function decimal_digits :: "nat \<Rightarrow> nat list" where
  "decimal_digits n = (if n < 10 then [n] else decimal_digits (n div 10) @ [n mod 10])"
  by pat_completeness auto
termination
  by (relation "measure (\<lambda>n. n)") auto

declare decimal_digits.simps [simp del]

fun digit_pairs :: "nat list \<Rightarrow> buffer" where
  "digit_pairs (a # b # rest) = (16 * a + b) # digit_pairs rest"
| "digit_pairs _ = []"

definition decimal_then_hex :: "nat \<Rightarrow> buffer" where
  "decimal_then_hex n = digit_pairs (decimal_digits n)"

definition headerHash :: "blockHeader \<Rightarrow> string" where
  "headerHash header =
     hex_encode (sha256 (sha256
       (decimal_then_hex (version header) @ hex_decode (prevBlockHash header) @
        hex_decode (merkleRoot_field header) @ decimal_then_hex (timestamp header) @
        hex_decode (bits header) @ decimal_then_hex (nonce header))))"

definition initialHeader :: "string \<Rightarrow> nat \<Rightarrow> blockHeader" where
  \<comment> \<open>the literal of lines 92 to 99, from the Merkle root and the clock\<close>
  "initialHeader root now =
     \<lparr>version = 1,
      prevBlockHash = ''0000000000000000000000000000000000000000000000000000000000000000'',
      merkleRoot_field = root,
      timestamp = now,
      bits = ''0000ffff00000000000000000000000000000000000000000000000000000000'',
      nonce = 0\<rparr>"

subsection \<open>Comparing the hash with the target\<close>

text \<open>
  \<^verbatim>\<open>blockHash > 0x...\<close> compares a string with a number, so the string is converted
  with \<^verbatim>\<open>ToNumber\<close>. The string is a digest: 64 characters out of \<^verbatim>\<open>0-9a-f\<close>. Such a
  string is a numeric literal only when it is all decimal digits, or decimal digits, an
  \<^verbatim>\<open>e\<close> and decimal digits, or \<^verbatim>\<open>0b\<close> and binary digits; every other digest converts
  to \<^verbatim>\<open>NaN\<close>. (Signs, points, blanks and the other prefixes cannot occur in a digest.)
\<close>

definition is_dec :: "char \<Rightarrow> bool" where
  "is_dec c = (48 \<le> (of_char c :: nat) \<and> (of_char c :: nat) \<le> 57)"

definition is_bin :: "char \<Rightarrow> bool" where
  "is_bin c = (c = CHR ''0'' \<or> c = CHR ''1'')"

fun digits_value :: "nat \<Rightarrow> nat \<Rightarrow> string \<Rightarrow> nat" where
  \<comment> \<open>the value of a numeral in the given base, most significant digit first\<close>
  "digits_value base acc [] = acc"
| "digits_value base acc (c # cs) = digits_value base (base * acc + (of_char c - 48)) cs"

definition digestToNumber :: "string \<Rightarrow> number" where
  "digestToNumber s =
     (if s = [] then Fin 0
      else if list_all is_dec s then to_double (int (digits_value 10 0 s))
      else if take 2 s = ''0b'' \<and> drop 2 s \<noteq> [] \<and> list_all is_bin (drop 2 s)
        then to_double (int (digits_value 2 0 (drop 2 s)))
      else
        (let m = takeWhile is_dec s;
             e = drop (length m + 1) s
         in if m \<noteq> [] \<and> take 1 (drop (length m) s) = ''e'' \<and> e \<noteq> [] \<and> list_all is_dec e
            then (if digits_value 10 0 m = 0 then Fin 0
                  else if 308 < digits_value 10 0 e then PosInf
                  else to_double (int (digits_value 10 0 m * 10 ^ digits_value 10 0 e)))
            else NaN))"

fun js_gt :: "number \<Rightarrow> number \<Rightarrow> bool" where
  \<comment> \<open>\<^verbatim>\<open>x > y\<close> on numbers; false when either is \<^verbatim>\<open>NaN\<close>\<close>
  "js_gt NaN _ = False"
| "js_gt _ NaN = False"
| "js_gt (Fin a) (Fin b) = (b < a)"
| "js_gt PosInf PosInf = False"
| "js_gt PosInf _ = True"
| "js_gt _ PosInf = False"
| "js_gt NegInf _ = False"
| "js_gt _ NegInf = True"

definition target :: number where
  \<comment> \<open>the literal of line 109, which has 65 hexadecimal digits\<close>
  "target = Fin 0x0000ffff000000000000000000000000000000000000000000000000000000000"

definition hex_to_nat :: "string \<Rightarrow> nat" where
  \<comment> \<open>the unsigned integer that a hexadecimal text denotes\<close>
  "hex_to_nat s = foldl (\<lambda>acc c. 16 * acc + (case unhex c of None \<Rightarrow> 0 | Some d \<Rightarrow> d)) 0 s"

partial_function (option) mine :: "blockHeader \<Rightarrow> (blockHeader \<times> string) option" where
  \<comment> \<open>the \<^verbatim>\<open>do ... while\<close> of lines 106 to 109: the header and the hash when the loop ends,
      \<open>None\<close> when it never ends; \<^verbatim>\<open>nonce++\<close> is an addition of doubles\<close>
  "mine blockHeader =
     (let blockHash = getBlockHash blockHeader;
          incremented = blockHeader\<lparr>nonce := round_nat (nonce blockHeader + 1)\<rparr>
      in if js_gt (digestToNumber blockHash) target then mine incremented
         else Some (incremented, blockHash))"

section \<open>Writing the report\<close>

type_synonym files = "string \<rightharpoonup> string"

definition writeFileSync :: "files \<Rightarrow> string \<Rightarrow> string \<Rightarrow> files" where
  "writeFileSync fs file data = fs(file \<mapsto> data)"

definition appendFileSync :: "files \<Rightarrow> string \<Rightarrow> string \<Rightarrow> files" where
  "appendFileSync fs file data =
     fs(file \<mapsto> (case fs file of None \<Rightarrow> data | Some old \<Rightarrow> old @ data))"

definition getTransactionString :: "(transaction \<Rightarrow> string) \<Rightarrow> transaction \<Rightarrow> string" where
  "getTransactionString stringify transaction = stringify transaction"

fun append_each :: "(transaction \<Rightarrow> string) \<Rightarrow> files \<Rightarrow> string \<Rightarrow> transaction list \<Rightarrow> files" where
  \<comment> \<open>the \<^verbatim>\<open>forEach\<close> of lines 117 to 120\<close>
  "append_each stringify fs file [] = fs"
| "append_each stringify fs file (transaction # rest) =
     append_each stringify
       (appendFileSync fs file (getTransactionString stringify transaction @ [CHR 0x0A]))
       file rest"

definition write_output ::
  "(transaction \<Rightarrow> string) \<Rightarrow> files \<Rightarrow> blockHeader \<Rightarrow> transaction \<Rightarrow> transaction list \<Rightarrow> files" where
  \<comment> \<open>lines 112 to 120\<close>
  "write_output stringify fs blockHeader coinbase validTransactions =
     (let outputFile = ''output.txt'';
          fs1 = writeFileSync fs outputFile (getBlockHeaderString blockHeader @ [CHR 0x0A]);
          fs2 = appendFileSync fs1 outputFile
                  (getTransactionString stringify coinbase @ [CHR 0x0A])
      in append_each stringify fs2 outputFile validTransactions)"

section \<open>The program\<close>

text \<open>
  The statements of the script in their order, from the parsed mempool, the clock and
  the files. \<open>None\<close> is a run that never ends; \<open>Inl\<close> is an uncaught exception.
\<close>

definition main ::
  "(transaction \<Rightarrow> string) \<Rightarrow> transaction list \<Rightarrow> nat \<Rightarrow> files \<Rightarrow> (error + files) option" where
  "main stringify transactions now fs =
     (let validTransactions = filter validateTransaction transactions
      in case totalFees validTransactions of
           Inl e \<Rightarrow> Some (Inl e)
         | Inr fees \<Rightarrow>
             (let coinbase = coinbaseTransaction fees
              in case getMerkleRoot stringify (validTransactions @ [coinbase]) of
                   None \<Rightarrow> None
                 | Some root \<Rightarrow>
                     (case mine (initialHeader root now) of
                        None \<Rightarrow> None
                      | Some (blockHeader, blockHash) \<Rightarrow>
                          Some (Inr (write_output stringify fs blockHeader coinbase
                                       validTransactions)))))"

subsection \<open>The serialization of the coinbase transaction without fees\<close>

text \<open>
  \<^verbatim>\<open>JSON.stringify\<close> of the coinbase literal when \<^verbatim>\<open>totalFees\<close> is 0: the members in the
  order of the literal, no blanks added.
\<close>

definition coinbase_json :: string where
  \<open>coinbase_json = ''{"version":1,"locktime":0,"vin":[{"prevout":{"txid":"0000000000000000000000000000000000000000000000000000000000000000","value":2500000}}],"vout":[{"scriptpubkey":"76a9146085312a9c500ff9cc35b571b0a1e5efb7fb9f1688ac","scriptpubkey_asm":"OP_DUP OP_HASH160 OP_PUSHBYTES_20 6085312a9c500ff9cc35b571b0a1e5efb7fb9f16 OP_EQUALVERIFY OP_CHECKSIG","scriptpubkey_type":"p2pkh","scriptpubkey_address":"19oMRmCWMYuhnP5W61ABrjjxHc6RphZh11","value":0}]}''\<close>

definition stringify_coinbase :: "transaction \<Rightarrow> string" where
  \<comment> \<open>\<^verbatim>\<open>JSON.stringify\<close> in a run whose only transaction is that coinbase\<close>
  "stringify_coinbase transaction = coinbase_json"

subsection \<open>Sample transactions\<close>

definition pay :: "int \<Rightarrow> tx_output" where
  \<comment> \<open>a native segwit output of the given value\<close>
  "pay v = \<lparr>txid = None, scriptpubkey = None, scriptpubkey_asm = None,
     scriptpubkey_type = Some ''v0_p2wpkh'', scriptpubkey_address = Some ''bc1q'',
     value_num = Some (Fin v)\<rparr>"

definition tx_of :: "int list \<Rightarrow> int list \<Rightarrow> transaction" where
  \<comment> \<open>a transaction spending previous outputs of the values \<open>ins\<close> into outputs of the values \<open>outs\<close>\<close>
  "tx_of ins outs =
     \<lparr>tx_version = Some (Fin 1), tx_locktime = Some (Fin 0),
      vin = Some (map (\<lambda>v. \<lparr>prevout = Some (pay v)\<rparr>) ins),
      vout = Some (map pay outs)\<rparr>"

section \<open>Theorems\<close>

subsection \<open>Validation\<close>

lemma checks_fail_iff: "checks_fail p = (\<not> passes p)"
proof -
  have v: "js_le_zero (or_zero v) = (\<not> positive v)" for v
    by (cases v rule: positive.cases) auto
  have t: "includes_str [''v0_p2wpkh'', ''v1_p2tr''] (or_empty s)
      = (s = Some ''v0_p2wpkh'' \<or> s = Some ''v1_p2tr'')" for s
    by (cases s) (auto simp: includes_str_def)
  have a: "startsWith (or_empty s) ''bc1''
      = (case s of None \<Rightarrow> False | Some a \<Rightarrow> take 3 a = ''bc1'')" for s
    by (cases s) (simp_all add: startsWith_def numeral_3_eq_3)
  show ?thesis
    unfolding checks_fail_def passes_def Let_def t a v by auto
qed

lemma validate_vin_iff: "validate_vin is = list_all (\<lambda>i. passes (spent i)) is"
  by (induction "is") (simp_all add: checks_fail_iff spent_def Let_def)

lemma validate_vout_iff: "validate_vout os = list_all passes os"
  by (induction os) (simp_all add: checks_fail_iff)

text \<open>
  C4. A transaction is accepted exactly when every input's previous output and every
  output passes the three checks: type \<^verbatim>\<open>v0_p2wpkh\<close> or \<^verbatim>\<open>v1_p2tr\<close>, address starting
  with \<^verbatim>\<open>bc1\<close>, value positive (an absent member fails its check). An empty or absent
  \<^verbatim>\<open>vin\<close> or \<^verbatim>\<open>vout\<close> passes its side.
\<close>

theorem validateTransaction_iff:
  "validateTransaction t =
     (list_all (\<lambda>i. passes (spent i)) (or_nil (vin t)) \<and> list_all passes (or_nil (vout t)))"
  by (simp add: validateTransaction_def validate_vin_iff validate_vout_iff)

text \<open>
  A transaction with segwit inputs and outputs of positive value is accepted; the same
  transaction with a \<^verbatim>\<open>p2sh\<close> output, with an address outside \<^verbatim>\<open>bc1\<close>, or with an
  output of value 0 is rejected, and so is an input without its previous output. A
  transaction without \<^verbatim>\<open>vin\<close> and \<^verbatim>\<open>vout\<close> is accepted.
\<close>

lemma validateTransaction_examples:
  "validateTransaction (tx_of [5, 7] [3])"
  "\<not> validateTransaction
      ((tx_of [5, 7] [3])\<lparr>vout := Some [(pay 3)\<lparr>scriptpubkey_type := Some ''p2sh''\<rparr>]\<rparr>)"
  "\<not> validateTransaction
      ((tx_of [5, 7] [3])\<lparr>vout := Some [(pay 3)\<lparr>scriptpubkey_address := Some ''1BvBM''\<rparr>]\<rparr>)"
  "\<not> validateTransaction (tx_of [5, 7] [0])"
  "\<not> validateTransaction ((tx_of [5, 7] [3])\<lparr>vin := Some [\<lparr>prevout = None\<rparr>]\<rparr>)"
  "validateTransaction \<lparr>tx_version = None, tx_locktime = None, vin = None, vout = None\<rparr>"
  by (simp_all add: validateTransaction_def tx_of_def pay_def checks_fail_def no_output_def
      includes_str_def startsWith_def)

subsection \<open>Exact arithmetic below \<open>2 ^ 53\<close> and the accumulated fees\<close>

lemma bit_length_le: "n < 2 ^ b \<Longrightarrow> bit_length n \<le> b"
proof (induction n arbitrary: b rule: bit_length.induct)
  case (1 n)
  show ?case
  proof (cases "n = 0")
    case True
    then show ?thesis by (simp add: bit_length.simps)
  next
    case False
    with "1.prems" obtain c where b: "b = Suc c" by (cases b) auto
    with "1.prems" have "n div 2 < 2 ^ c" by auto
    with "1.IH" [OF False] have "bit_length (n div 2) \<le> c" .
    with False b show ?thesis by (simp add: bit_length.simps [of n])
  qed
qed

lemma bit_length_pow53: "bit_length 9007199254740992 = 54"
  by (simp add: bit_length.simps)

lemma round_nat_id: "n \<le> 2 ^ 53 \<Longrightarrow> round_nat n = n"
proof (cases "n = 2 ^ 53")
  case True
  then show ?thesis by (simp add: round_nat_def bit_length_pow53 Let_def)
next
  case False
  assume "n \<le> 2 ^ 53"
  with False have "n < 2 ^ 53" by simp
  then have "bit_length n - 53 = 0" using bit_length_le [of n 53] by simp
  then show ?thesis by (simp add: round_nat_def)
qed

lemma to_double_id: "\<bar>x\<bar> \<le> 2 ^ 53 \<Longrightarrow> to_double x = Fin x"
proof -
  assume a: "\<bar>x\<bar> \<le> 2 ^ 53"
  then have "nat \<bar>x\<bar> \<le> 2 ^ 53" by (simp add: nat_le_iff)
  then have r: "round_nat (nat \<bar>x\<bar>) = nat \<bar>x\<bar>" by (rule round_nat_id)
  have "int (nat \<bar>x\<bar>) < 2 ^ 1024" using a by (simp add: order_le_less_trans)
  then have "\<not> (2 ^ 1024 \<le> nat \<bar>x\<bar>)" by (simp add: nat_less_iff)
  then show ?thesis unfolding to_double_def r Let_def by auto
qed

lemma js_add_exact: "\<bar>a + b\<bar> \<le> 2 ^ 53 \<Longrightarrow> js_add (Fin a) (Fin b) = Fin (a + b)"
  by (simp add: to_double_id)

lemma js_sub_exact: "\<bar>a - b\<bar> \<le> 2 ^ 53 \<Longrightarrow> js_sub (Fin a) (Fin b) = Fin (a - b)"
  by (simp add: js_sub_def to_double_id)

lemma is_amountE: "is_amount v \<Longrightarrow> v = Some (Fin (amount v))"
  by (cases v rule: is_amount.cases) simp_all

lemma mag_nonneg: "0 \<le> mag vs"
  unfolding mag_def by (induction vs) auto

lemma tot_le_mag: "\<bar>tot vs\<bar> \<le> mag vs"
  unfolding mag_def tot_def by (induction vs) auto

lemma fee_inputs_exact:
  "list_all (\<lambda>i. prevout i \<noteq> None) ins
   \<Longrightarrow> list_all is_amount (map (\<lambda>i. value_num (spent i)) ins)
   \<Longrightarrow> \<bar>a\<bar> + mag (map (\<lambda>i. value_num (spent i)) ins) \<le> 2 ^ 53
   \<Longrightarrow> fee_inputs (Fin a) ins = Inr (Fin (a + tot (map (\<lambda>i. value_num (spent i)) ins)))"
proof (induction ins arbitrary: a)
  case Nil
  then show ?case by (simp add: tot_def)
next
  case (Cons i ins)
  let ?vs = "map (\<lambda>i. value_num (spent i)) ins"
  from Cons.prems(1) obtain p where p: "prevout i = Some p" by auto
  then have sp: "spent i = p" by (simp add: spent_def)
  from Cons.prems(2) sp have v: "value_num p = Some (Fin (amount (value_num p)))"
    by (auto dest: is_amountE)
  let ?v = "amount (value_num p)"
  from Cons.prems(3) sp have b: "\<bar>a\<bar> + \<bar>?v\<bar> + mag ?vs \<le> 2 ^ 53"
    by (simp add: mag_def)
  have "\<bar>a + ?v\<bar> \<le> 2 ^ 53" using b mag_nonneg [of ?vs] by linarith
  then have step: "js_add (Fin a) (to_number (value_num p)) = Fin (a + ?v)"
    using v js_add_exact [of a ?v] by (metis to_number.simps(2))
  have "\<bar>a + ?v\<bar> + mag ?vs \<le> 2 ^ 53" using b by linarith
  with Cons.IH [of "a + ?v"] Cons.prems(1,2)
  have "fee_inputs (Fin (a + ?v)) ins = Inr (Fin (a + ?v + tot ?vs))" by simp
  then show ?case using p sp step by (simp add: tot_def)
qed

lemma fee_outputs_exact:
  "list_all is_amount (map value_num outs)
   \<Longrightarrow> \<bar>a\<bar> + mag (map value_num outs) \<le> 2 ^ 53
   \<Longrightarrow> fee_outputs (Fin a) outs = Fin (a - tot (map value_num outs))"
proof (induction outs arbitrary: a)
  case Nil
  then show ?case by (simp add: tot_def)
next
  case (Cons out outs)
  let ?vs = "map value_num outs"
  let ?v = "amount (value_num out)"
  from Cons.prems(1) have v: "value_num out = Some (Fin ?v)" by (auto dest: is_amountE)
  from Cons.prems(2) have b: "\<bar>a\<bar> + \<bar>?v\<bar> + mag ?vs \<le> 2 ^ 53"
    by (simp add: mag_def)
  have "\<bar>a - ?v\<bar> \<le> 2 ^ 53" using b mag_nonneg [of ?vs] by linarith
  then have step: "js_sub (Fin a) (to_number (value_num out)) = Fin (a - ?v)"
    using v js_sub_exact [of a ?v] by (metis to_number.simps(2))
  have "\<bar>a - ?v\<bar> + mag ?vs \<le> 2 ^ 53" using b by linarith
  with Cons.IH [of "a - ?v"] Cons.prems(1)
  have "fee_outputs (Fin (a - ?v)) outs = Fin (a - ?v - tot ?vs)" by simp
  then show ?case using step by (simp add: tot_def)
qed

lemma volume_Cons: "volume (t # ts) = mag (in_values t) + mag (out_values t) + volume ts"
  by (simp add: volume_def mag_def)

lemma volume_mag: "volume ts = mag (concat (map in_values ts) @ concat (map out_values ts))"
  by (simp add: volume_def mag_def)

lemma volume_nonneg: "0 \<le> volume ts"
  by (simp only: volume_mag mag_nonneg)

lemma fee_loop_exact:
  "list_all well_formed ts \<Longrightarrow> \<bar>a\<bar> + volume ts \<le> 2 ^ 53
   \<Longrightarrow> fee_loop (Fin a) ts = Inr (Fin (a + sum_in ts - sum_out ts))"
proof (induction ts arbitrary: a)
  case Nil
  then show ?case by (simp add: sum_in_def sum_out_def)
next
  case (Cons t ts)
  from Cons.prems(1) obtain ins outs where io: "vin t = Some ins" "vout t = Some outs"
    by (auto simp: well_formed_def)
  from Cons.prems(1) io have wf: "list_all (\<lambda>i. prevout i \<noteq> None) ins"
    "list_all is_amount (map (\<lambda>i. value_num (spent i)) ins)"
    "list_all is_amount (map value_num outs)"
    by (simp_all add: well_formed_def in_values_def out_values_def)
  have iv: "in_values t = map (\<lambda>i. value_num (spent i)) ins"
    and ov: "out_values t = map value_num outs"
    using io by (simp_all add: in_values_def out_values_def)
  let ?i = "tot (in_values t)" and ?o = "tot (out_values t)"
  from Cons.prems(2)
  have b: "\<bar>a\<bar> + mag (in_values t) + mag (out_values t) + volume ts \<le> 2 ^ 53"
    by (simp add: volume_Cons)
  note nn = mag_nonneg [of "in_values t"] mag_nonneg [of "out_values t"] volume_nonneg [of ts]
    tot_le_mag [of "in_values t"] tot_le_mag [of "out_values t"]
  have "\<bar>a\<bar> + mag (in_values t) \<le> 2 ^ 53" using b nn by linarith
  then have s1: "fee_inputs (Fin a) ins = Inr (Fin (a + ?i))"
    using fee_inputs_exact [OF wf(1,2), of a] by (simp add: iv)
  have "\<bar>a + ?i\<bar> + mag (out_values t) \<le> 2 ^ 53" using b nn by linarith
  then have s2: "fee_outputs (Fin (a + ?i)) outs = Fin (a + ?i - ?o)"
    using fee_outputs_exact [OF wf(3), of "a + ?i"] by (simp add: ov)
  have "\<bar>a + ?i - ?o\<bar> + volume ts \<le> 2 ^ 53" using b nn by linarith
  with Cons.IH [of "a + ?i - ?o"] Cons.prems(1)
  have s3: "fee_loop (Fin (a + ?i - ?o)) ts = Inr (Fin (a + ?i - ?o + sum_in ts - sum_out ts))"
    by simp
  have "sum_in (t # ts) = ?i + sum_in ts" "sum_out (t # ts) = ?o + sum_out ts"
    by (simp_all add: sum_in_def sum_out_def tot_def)
  then show ?case using io s1 s2 s3 by simp
qed


text \<open>
  C6 (as amended). The accumulator of the empty sequence is 0. For transactions whose
  \<^verbatim>\<open>vin\<close> and \<^verbatim>\<open>vout\<close> are present, whose inputs carry their previous output and
  whose values are finite integers of total magnitude at most \<open>2 ^ 53\<close>, the
  accumulated fee is exactly the sum of the input values minus the sum of the output
  values, and the fee of a concatenation is the sum of the fees of its parts.
\<close>

theorem totalFees_linear:
  assumes wf: "list_all well_formed (A @ B)" and vol: "volume (A @ B) \<le> 2 ^ 53"
  shows "totalFees [] = Inr (Fin 0)
    \<and> totalFees (A @ B) = Inr (Fin (sum_in (A @ B) - sum_out (A @ B)))
    \<and> totalFees (A @ B) = plus_result (totalFees A) (totalFees B)"
proof -
  have split: "volume (A @ B) = volume A + volume B"
    by (simp add: volume_def)
  have sums: "sum_in (A @ B) = sum_in A + sum_in B" "sum_out (A @ B) = sum_out A + sum_out B"
    by (simp_all add: sum_in_def sum_out_def)
  note nn = volume_nonneg [of A] volume_nonneg [of B]
  have ab: "totalFees (A @ B) = Inr (Fin (sum_in (A @ B) - sum_out (A @ B)))"
    unfolding totalFees_def using fee_loop_exact [OF wf, of 0] vol by simp
  have a: "totalFees A = Inr (Fin (sum_in A - sum_out A))"
    unfolding totalFees_def using fee_loop_exact [of A 0] wf vol split nn by simp
  have b: "totalFees B = Inr (Fin (sum_in B - sum_out B))"
    unfolding totalFees_def using fee_loop_exact [of B 0] wf vol split nn by simp
  have "\<bar>sum_in (A @ B) - sum_out (A @ B)\<bar> \<le> volume (A @ B)"
    using tot_le_mag [of "concat (map in_values (A @ B))"]
      tot_le_mag [of "concat (map out_values (A @ B))"]
    by (simp add: volume_def sum_in_def sum_out_def mag_def tot_def)
  with vol have "\<bar>(sum_in A - sum_out A) + (sum_in B - sum_out B)\<bar> \<le> 2 ^ 53"
    unfolding sums by linarith
  then have "js_add (Fin (sum_in A - sum_out A)) (Fin (sum_in B - sum_out B))
      = Fin ((sum_in A - sum_out A) + (sum_in B - sum_out B))"
    by (rule js_add_exact)
  then have "plus_result (totalFees A) (totalFees B) = totalFees (A @ B)"
    unfolding a b ab sums by simp
  with ab show ?thesis by (simp add: totalFees_def)
qed

text \<open>The hypotheses hold, and the conclusion is used, on two small transactions.\<close>

theorem totalFees_linear_witness:
  "list_all well_formed ([tx_of [5, 7] [3]] @ [tx_of [10] [4, 2]])
   \<and> volume ([tx_of [5, 7] [3]] @ [tx_of [10] [4, 2]]) \<le> 2 ^ 53
   \<and> totalFees ([tx_of [5, 7] [3]] @ [tx_of [10] [4, 2]]) = Inr (Fin 13)
   \<and> plus_result (totalFees [tx_of [5, 7] [3]]) (totalFees [tx_of [10] [4, 2]]) = Inr (Fin 13)"
proof -
  have wf: "list_all well_formed ([tx_of [5, 7] [3]] @ [tx_of [10] [4, 2]])"
    by (simp add: well_formed_def tx_of_def pay_def in_values_def out_values_def spent_def)
  have vol: "volume ([tx_of [5, 7] [3]] @ [tx_of [10] [4, 2]]) \<le> 2 ^ 53"
    by (simp add: volume_def tx_of_def pay_def in_values_def out_values_def spent_def)
  have s: "sum_in ([tx_of [5, 7] [3]] @ [tx_of [10] [4, 2]])
      - sum_out ([tx_of [5, 7] [3]] @ [tx_of [10] [4, 2]]) = 13"
    by (simp add: sum_in_def sum_out_def tx_of_def pay_def in_values_def out_values_def spent_def)
  note t = totalFees_linear [OF wf vol, unfolded s]
  from t have e1: "totalFees ([tx_of [5, 7] [3]] @ [tx_of [10] [4, 2]]) = Inr (Fin 13)"
    by (rule conjunct2 [THEN conjunct1])
  from t have e2: "totalFees ([tx_of [5, 7] [3]] @ [tx_of [10] [4, 2]])
      = plus_result (totalFees [tx_of [5, 7] [3]]) (totalFees [tx_of [10] [4, 2]])"
    by (rule conjunct2 [THEN conjunct2])
  from e1 e2 have e3: "plus_result (totalFees [tx_of [5, 7] [3]]) (totalFees [tx_of [10] [4, 2]])
      = Inr (Fin 13)" by (simp only:)
  from wf vol e1 e3 show ?thesis by (intro conjI)
qed

lemma to_double_tie: "to_double 9007199254740993 = Fin 9007199254740992"
  by (simp add: to_double_def round_nat_def bit_length.simps Let_def)

text \<open>
  C6 as stated fails: the running accumulator is a double. With one accepted transaction
  spending \<open>2 ^ 53\<close> and another spending 1 and 1, each addition of 1 to \<open>2 ^ 53\<close> is
  rounded back to \<open>2 ^ 53\<close>, while the two fees computed apart add up to \<open>2 ^ 53 + 2\<close>.
\<close>

theorem totalFees_linear_counterexample:
  "validateTransaction (tx_of [9007199254740992] [])
   \<and> validateTransaction (tx_of [1, 1] [])
   \<and> totalFees ([tx_of [9007199254740992] []] @ [tx_of [1, 1] []]) = Inr (Fin 9007199254740992)
   \<and> plus_result (totalFees [tx_of [9007199254740992] []]) (totalFees [tx_of [1, 1] []])
       = Inr (Fin 9007199254740994)
   \<and> sum_in ([tx_of [9007199254740992] []] @ [tx_of [1, 1] []])
       - sum_out ([tx_of [9007199254740992] []] @ [tx_of [1, 1] []]) = 9007199254740994
   \<and> totalFees ([tx_of [9007199254740992] []] @ [tx_of [1, 1] []])
       \<noteq> plus_result (totalFees [tx_of [9007199254740992] []]) (totalFees [tx_of [1, 1] []])"
  by (simp add: validateTransaction_def tx_of_def pay_def checks_fail_def
      includes_str_def startsWith_def totalFees_def sum_in_def sum_out_def in_values_def
      out_values_def spent_def to_double_def round_nat_def bit_length.simps Let_def)

subsection \<open>The coinbase transaction\<close>

text \<open>
  C8 (as amended). The coinbase transaction built from the accumulated fees has one
  input, whose previous output has the all-zero \<^verbatim>\<open>txid\<close> and the value that the
  addition of doubles \<^verbatim>\<open>2500000 + totalFees\<close> gives, and one output, the fixed
  pay-to-public-key-hash script with value 0. The sum is not clamped. For integer fees
  it is the exact sum, negative fees included, as long as the magnitude of the sum is
  at most \<open>2 ^ 53\<close>.
\<close>

theorem coinbaseTransaction_fields:
  "map (\<lambda>i. txid (spent i)) (or_nil (vin (coinbaseTransaction fees)))
      = [Some (replicate 64 (CHR ''0''))]
   \<and> in_values (coinbaseTransaction fees) = [Some (js_add (Fin 2500000) fees)]
   \<and> (\<bar>2500000 + n\<bar> \<le> 2 ^ 53 \<longrightarrow>
        in_values (coinbaseTransaction (Fin n)) = [Some (Fin (2500000 + n))])
   \<and> or_nil (vout (coinbaseTransaction fees)) =
       [\<lparr>txid = None,
         scriptpubkey = Some ''76a9146085312a9c500ff9cc35b571b0a1e5efb7fb9f1688ac'',
         scriptpubkey_asm = Some ''OP_DUP OP_HASH160 OP_PUSHBYTES_20 6085312a9c500ff9cc35b571b0a1e5efb7fb9f16 OP_EQUALVERIFY OP_CHECKSIG'',
         scriptpubkey_type = Some ''p2pkh'',
         scriptpubkey_address = Some ''19oMRmCWMYuhnP5W61ABrjjxHc6RphZh11'',
         value_num = Some (Fin 0)\<rparr>]"
  by (simp add: coinbaseTransaction_def in_values_def spent_def to_double_id
      eval_nat_numeral)

text \<open>Fees of \<open>-3000000\<close> give a coinbase value of \<open>-500000\<close>.\<close>

theorem coinbaseTransaction_fields_witness:
  "\<bar>2500000 + (- 3000000 :: int)\<bar> \<le> 2 ^ 53
   \<and> in_values (coinbaseTransaction (Fin (- 3000000))) = [Some (Fin (- 500000))]"
  using coinbaseTransaction_fields [of "Fin 0" "- 3000000"] by simp

text \<open>
  C8 as stated fails: the value is a double. One accepted transaction spending
  \<open>2 ^ 53 - 1\<close> gives fees of \<open>2 ^ 53 - 1\<close>; the exact sum with 2500000 is odd and above
  \<open>2 ^ 53\<close>, so the coinbase value is the even neighbour, one more than the sum.
\<close>

theorem coinbaseTransaction_fields_counterexample:
  "validateTransaction (tx_of [9007199254740991] [])
   \<and> totalFees [tx_of [9007199254740991] []] = Inr (Fin 9007199254740991)
   \<and> in_values (coinbaseTransaction (Fin 9007199254740991)) = [Some (Fin 9007199257240992)]
   \<and> in_values (coinbaseTransaction (Fin 9007199254740991))
       \<noteq> [Some (Fin (2500000 + 9007199254740991))]"
  by (simp add: validateTransaction_def tx_of_def pay_def checks_fail_def
      includes_str_def startsWith_def totalFees_def coinbaseTransaction_def in_values_def
      spent_def to_double_def round_nat_def bit_length.simps Let_def)

subsection \<open>The Merkle recursion\<close>

lemma level_loop_length:
  "length (level_loop hashes i newHashes) = length newHashes + (length hashes - i + 1) div 2"
proof (induction hashes i newHashes rule: level_loop.induct)
  case (1 hashes i newHashes)
  show ?case
  proof (cases "i < length hashes")
    case True
    then have "level_loop hashes i newHashes =
        level_loop hashes (i + 2) (newHashes @ [combine (hashes ! i)
          (if i + 1 < length hashes \<and> hashes ! (i + 1) \<noteq> [] then hashes ! (i + 1)
           else hashes ! i)])"
      by (subst level_loop.simps) (simp add: Let_def)
    moreover have "length (level_loop hashes (i + 2) (newHashes @ [combine (hashes ! i)
          (if i + 1 < length hashes \<and> hashes ! (i + 1) \<noteq> [] then hashes ! (i + 1)
           else hashes ! i)])) = length newHashes + 1 + (length hashes - (i + 2) + 1) div 2"
      using "1.IH" [OF True refl refl] by simp
    ultimately have "length (level_loop hashes i newHashes)
        = length newHashes + 1 + (length hashes - (i + 2) + 1) div 2"
      by (simp only:)
    moreover have "length newHashes + 1 + (length hashes - (i + 2) + 1) div 2
        = length newHashes + (length hashes - i + 1) div 2"
      using True by presburger
    ultimately show ?thesis by (simp only:)
  next
    case False
    then show ?thesis by (subst level_loop.simps) simp
  qed
qed

lemma merkleRoot_Nil: "merkleRoot [] = None"
proof -
  have "hashes \<noteq> []" if r: "merkleRoot hashes = Some root" for hashes root
  proof (rule merkleRoot.raw_induct [where P = "\<lambda>x y. x \<noteq> []", OF _ r])
    fix f :: "string list \<Rightarrow> string option" and x y
    assume IH: "\<And>x y. f x = Some y \<Longrightarrow> x \<noteq> []"
      and step: "(if length x = 1 then Some (x ! 0) else f (level_loop x 0 [])) = Some y"
    show "x \<noteq> []"
    proof
      assume e: "x = []"
      then have "level_loop x 0 [] = []" by (simp add: level_loop.simps)
      with step e have "f [] = Some y" by (simp split: if_splits)
      with IH show False by blast
    qed
  qed
  then show ?thesis by (cases "merkleRoot []") auto
qed

lemma merkleRoot_returns: "hashes \<noteq> [] \<Longrightarrow> \<exists>root. merkleRoot hashes = Some root"
proof (induction "length hashes" arbitrary: hashes rule: less_induct)
  case less
  show ?case
  proof (cases "length hashes = 1")
    case True
    then show ?thesis by (subst merkleRoot.simps) simp
  next
    case False
    moreover from less.prems have "length hashes \<noteq> 0" by simp
    ultimately have two: "2 \<le> length hashes" by linarith
    let ?next = "level_loop hashes 0 []"
    have len: "length ?next = (length hashes + 1) div 2" by (simp add: level_loop_length)
    with two have "length ?next < length hashes" "?next \<noteq> []" by auto
    with less.hyps obtain root where "merkleRoot ?next = Some root" by blast
    with False show ?thesis by (subst merkleRoot.simps) simp
  qed
qed


subsection \<open>Digests are 32 octets, and hexadecimal text decodes to them\<close>

lemma rounds_length: "length st = 8 \<Longrightarrow> length (rounds ks ws st) = 8"
  by (induction ks ws st rule: rounds.induct) (simp_all add: Let_def)

lemma add32_less: "add32 x y < 4294967296"
  by (simp add: add32_def)

lemma compress_words:
  assumes "length st = 8"
  shows "length (compress st blk) = 8 \<and> list_all (\<lambda>w. w < 4294967296) (compress st blk)"
proof -
  have "list_all (\<lambda>w. w < 4294967296) (map2 add32 xs ys)" for xs ys
    by (induction xs ys rule: list_induct2') (simp_all add: add32_less)
  then show ?thesis using assms by (simp add: compress_def rounds_length)
qed

lemma blocks_words:
  "length st = 8 \<Longrightarrow> list_all (\<lambda>w. w < 4294967296) st
   \<Longrightarrow> length (blocks st bs) = 8 \<and> list_all (\<lambda>w. w < 4294967296) (blocks st bs)"
proof (induction st bs rule: blocks.induct)
  case (1 st bs)
  show ?case
  proof (cases "length bs < 64")
    case True
    with "1.prems" show ?thesis by (subst (1 2) blocks.simps) simp
  next
    case False
    from compress_words [OF "1.prems"(1), of "take 64 bs"] "1.IH" [OF False]
    have "length (blocks (compress st (take 64 bs)) (drop 64 bs)) = 8
      \<and> list_all (\<lambda>w. w < 4294967296) (blocks (compress st (take 64 bs)) (drop 64 bs))"
      by blast
    with False show ?thesis by (subst (1 2) blocks.simps) simp
  qed
qed

lemma word_bytes_octets: "w < 4294967296 \<Longrightarrow> list_all (\<lambda>b. b < 256) (word_bytes w)"
  by (simp add: word_bytes_def less_mult_imp_div_less)

lemma concat_word_bytes:
  "list_all (\<lambda>w. w < 4294967296) ws
   \<Longrightarrow> length (concat (map word_bytes ws)) = 4 * length ws
     \<and> list_all (\<lambda>b. b < 256) (concat (map word_bytes ws))"
proof (induction ws)
  case Nil
  then show ?case by simp
next
  case (Cons w ws)
  then have "list_all (\<lambda>b. b < 256) (word_bytes w)" by (simp add: word_bytes_octets)
  moreover have "length (word_bytes w) = 4" by (simp add: word_bytes_def)
  ultimately show ?case using Cons by simp
qed

lemma sha256_octets: "length (sha256 m) = 32 \<and> list_all (\<lambda>b. b < 256) (sha256 m)"
proof -
  have "length H0 = 8" "list_all (\<lambda>w. w < 4294967296) H0" by (simp_all add: H0_def)
  then have "length (blocks H0 (pad m)) = 8
      \<and> list_all (\<lambda>w. w < 4294967296) (blocks H0 (pad m))"
    by (rule blocks_words)
  then show ?thesis using concat_word_bytes [of "blocks H0 (pad m)"] by (simp add: sha256_def)
qed

lemma unhex_digit: "d < 16 \<Longrightarrow> unhex (''0123456789abcdef'' ! d) = Some d"
proof -
  assume "d < 16"
  then have "d = 0 \<or> d = 1 \<or> d = 2 \<or> d = 3 \<or> d = 4 \<or> d = 5 \<or> d = 6 \<or> d = 7
      \<or> d = 8 \<or> d = 9 \<or> d = 10 \<or> d = 11 \<or> d = 12 \<or> d = 13 \<or> d = 14 \<or> d = 15"
    by presburger
  then show ?thesis by (elim disjE) (simp_all add: unhex_def)
qed

lemma hex_decode_byte: "b < 256 \<Longrightarrow> hex_decode (hex_byte b @ rest) = b # hex_decode rest"
proof -
  assume "b < 256"
  then have "b div 16 < 16" "b mod 16 < 16" by auto
  then show ?thesis by (simp add: hex_byte_def unhex_digit)
qed

lemma hex_decode_encode: "list_all (\<lambda>b. b < 256) bs \<Longrightarrow> hex_decode (hex_encode bs) = bs"
proof (induction bs)
  case Nil
  then show ?case by (simp add: hex_encode_def)
next
  case (Cons b bs)
  then have "hex_decode (hex_byte b @ hex_encode bs) = b # bs"
    by (simp add: hex_decode_byte)
  then show ?case by (simp add: hex_encode_def)
qed

lemma hex_encode_length: "length (hex_encode bs) = 2 * length bs"
  by (induction bs) (simp_all add: hex_encode_def hex_byte_def)

lemma digest_nonempty: "hex_encode (sha256 m) \<noteq> []"
proof -
  have "length (hex_encode (sha256 m)) = 64" by (simp add: hex_encode_length sha256_octets)
  then show ?thesis by auto
qed

lemma combine_digests:
  "combine (hex_encode (sha256 x)) (hex_encode (sha256 y)) = hex_encode (sha256 (sha256 x @ sha256 y))"
  by (simp add: combine_def hex_decode_encode sha256_octets)

subsection \<open>Merkle roots\<close>

lemma level_loop_three:
  "b \<noteq> [] \<Longrightarrow> level_loop [a, b, c] 0 [] = [combine a b, combine c c]"
  by (simp add: level_loop.simps Let_def eval_nat_numeral)

lemma level_loop_two:
  "b \<noteq> [] \<Longrightarrow> level_loop [a, b] 0 [] = [combine a b]"
  by (simp add: level_loop.simps Let_def eval_nat_numeral)

lemma merkleRoot_three:
  assumes "b \<noteq> []"
  shows "merkleRoot [a, b, c] = Some (combine (combine a b) (combine c c))"
proof -
  have ne: "combine c c \<noteq> []" by (simp add: combine_def digest_nonempty)
  have "merkleRoot [a, b, c] = merkleRoot [combine a b, combine c c]"
    by (subst merkleRoot.simps) (simp add: level_loop_three [OF assms])
  also have "\<dots> = merkleRoot [combine (combine a b) (combine c c)]"
    by (subst merkleRoot.simps) (simp add: level_loop_two [OF ne])
  also have "\<dots> = Some (combine (combine a b) (combine c c))"
    by (subst merkleRoot.simps) simp
  finally show ?thesis .
qed

text \<open>
  C5. The Merkle root of three transactions pairs the third leaf with itself: with
  \<open>H\<close> the SHA-256 of raw octets and the leaves \<open>H(a)\<close>, \<open>H(b)\<close>, \<open>H(c)\<close>, the root is the
  hexadecimal text of \<open>H(H(H(a) @ H(b)) @ H(H(c) @ H(c)))\<close>: each pair is the single
  hash of the two decoded 32-octet hashes, one after the other.
\<close>

theorem getMerkleRoot_three:
  "getMerkleRoot stringify [a, b, c] =
     Some (hex_encode (sha256
       (sha256 (sha256 (utf8 (stringify a)) @ sha256 (utf8 (stringify b)))
        @ sha256 (sha256 (utf8 (stringify c)) @ sha256 (utf8 (stringify c))))))"
  by (simp add: getMerkleRoot_def merkleRoot_three digest_nonempty combine_digests)

text \<open>
  C10. On every non-empty list of hashes the recursion returns a root. A level of
  \<open>n \<ge> 2\<close> hashes reduces to \<open>(n + 1) div 2\<close> hashes, which are fewer. On the empty
  list the recursion never returns.
\<close>

theorem merkleRoot_terminates:
  "(hashes \<noteq> [] \<longrightarrow> (\<exists>root. merkleRoot hashes = Some root))
   \<and> (2 \<le> length hashes \<longrightarrow>
        length (level_loop hashes 0 []) = (length hashes + 1) div 2
        \<and> length (level_loop hashes 0 []) < length hashes)
   \<and> merkleRoot [] = None"
  using merkleRoot_returns [of hashes] by (auto simp: level_loop_length merkleRoot_Nil)

text \<open>Three hashes reduce to two, and the recursion returns.\<close>

theorem merkleRoot_terminates_witness:
  "[''ab'', ''cd'', ''ef''] \<noteq> []
   \<and> (\<exists>root. merkleRoot [''ab'', ''cd'', ''ef''] = Some root)
   \<and> 2 \<le> length [''ab'', ''cd'', ''ef'']
   \<and> length (level_loop [''ab'', ''cd'', ''ef''] 0 []) = 2"
  using merkleRoot_terminates [of "[''ab'', ''cd'', ''ef'']"] by simp

text \<open>
  C2 (as amended). On zero transactions the Merkle computation returns nothing: the
  source has no error for this case, and the recursion goes on with the empty level
  forever (a JavaScript engine ends it when the call stack is exhausted). The script
  itself always appends the coinbase transaction, and then a root is returned.
\<close>

theorem getMerkleRoot_empty:
  "getMerkleRoot stringify [] = None
   \<and> (\<exists>root. getMerkleRoot stringify (validTransactions @ [coinbaseTransaction fees]) = Some root)"
  using merkleRoot_returns
    [of "map (\<lambda>t. hex_encode (sha256 (utf8 (stringify t)))) (validTransactions @ [coinbaseTransaction fees])"]
  by (simp add: getMerkleRoot_def merkleRoot_Nil)

text \<open>
  C2 as stated fails: on the empty list of hashes the result is neither a hash nor an
  error, the recursion does not return.
\<close>

theorem merkleRoot_empty_counterexample: "merkleRoot [] = None"
  by (rule merkleRoot_Nil)

subsection \<open>The header hash\<close>

lemma decimal_digits_small: "list_all (\<lambda>d. d < 10) (decimal_digits n)"
proof (induction n rule: decimal_digits.induct)
  case (1 n)
  show ?case
  proof (cases "n < 10")
    case True
    then show ?thesis by (subst decimal_digits.simps) simp
  next
    case False
    with "1.IH" show ?thesis by (subst decimal_digits.simps) simp
  qed
qed

lemma toString_digits: "toString n = map (\<lambda>d. ''0123456789'' ! d) (decimal_digits n)"
proof (induction n rule: decimal_digits.induct)
  case (1 n)
  show ?case
  proof (cases "n < 10")
    case True
    then show ?thesis by (subst toString.simps, subst decimal_digits.simps) simp
  next
    case False
    with "1.IH" show ?thesis by (subst toString.simps, subst decimal_digits.simps) simp
  qed
qed

lemma unhex_decimal: "d < 10 \<Longrightarrow> unhex (''0123456789'' ! d) = Some d"
proof -
  assume "d < 10"
  then have "d = 0 \<or> d = 1 \<or> d = 2 \<or> d = 3 \<or> d = 4 \<or> d = 5 \<or> d = 6 \<or> d = 7
      \<or> d = 8 \<or> d = 9"
    by presburger
  then show ?thesis by (elim disjE) (simp_all add: unhex_def)
qed

lemma hex_decode_digits:
  "list_all (\<lambda>d. d < 10) ds \<Longrightarrow> hex_decode (map (\<lambda>d. ''0123456789'' ! d) ds) = digit_pairs ds"
  by (induction ds rule: digit_pairs.induct) (simp_all add: unhex_decimal)

lemma hex_decode_toString: "hex_decode (toString n) = decimal_then_hex n"
  by (simp add: toString_digits hex_decode_digits decimal_digits_small decimal_then_hex_def)

text \<open>
  C3. The header hash of the source is the header hash of the specification: the
  octets of \<^verbatim>\<open>version\<close> (its decimal numeral, read as hexadecimal digits two by two),
  of \<^verbatim>\<open>prevBlockHash\<close>, \<^verbatim>\<open>merkleRoot\<close>, \<^verbatim>\<open>timestamp\<close> (as \<^verbatim>\<open>version\<close>), \<^verbatim>\<open>bits\<close> and
  \<^verbatim>\<open>nonce\<close> (as \<^verbatim>\<open>version\<close>), in this order, hashed with SHA-256, the 32 octets of the
  digest hashed again, and the result written in hexadecimal.
\<close>

theorem getBlockHash_headerHash: "getBlockHash blockHeader = headerHash blockHeader"
  by (simp add: getBlockHash_def headerHash_def hex_decode_toString)

lemma decimal_then_hex_examples:
  "decimal_then_hex 1 = []" "decimal_then_hex 1714000000 = [0x17, 0x14, 0, 0, 0]"
  "decimal_then_hex 123 = [0x12]"
  by (simp_all add: decimal_then_hex_def decimal_digits.simps)

lemma decimal_then_hex_digit: "d < 10 \<Longrightarrow> decimal_then_hex d = []"
  by (simp add: decimal_then_hex_def decimal_digits.simps)

lemma getBlockHash_deterministic:
  "version h1 = version h2 \<Longrightarrow> prevBlockHash h1 = prevBlockHash h2
   \<Longrightarrow> merkleRoot_field h1 = merkleRoot_field h2 \<Longrightarrow> timestamp h1 = timestamp h2
   \<Longrightarrow> bits h1 = bits h2 \<Longrightarrow> nonce h1 = nonce h2
   \<Longrightarrow> getBlockHash h1 = getBlockHash h2"
  by (simp add: getBlockHash_def)

lemma getBlockHash_small_nonces:
  "d < 10 \<Longrightarrow> getBlockHash (blockHeader\<lparr>nonce := d\<rparr>) = getBlockHash (blockHeader\<lparr>nonce := 0\<rparr>)"
  by (simp add: getBlockHash_def hex_decode_toString decimal_then_hex_digit)

text \<open>
  C7. The hash is a function of the six fields, but it does not change with every
  change of the nonce: the decimal numeral of a nonce below 10 is a single character,
  which \<^verbatim>\<open>Buffer.from(..., "hex")\<close> drops, so the nonces 0 and 1 give the same octets and
  the same hash, whatever the other fields are.
\<close>

theorem getBlockHash_nonce_collision:
  "getBlockHash (blockHeader\<lparr>nonce := 0\<rparr>) = getBlockHash (blockHeader\<lparr>nonce := 1\<rparr>)"
  by (simp add: getBlockHash_headerHash headerHash_def decimal_then_hex_digit)

subsection \<open>The report\<close>

lemma append_each_content:
  "fs file = Some old \<Longrightarrow>
   append_each stringify fs file ts =
     fs(file \<mapsto> old @ concat (map (\<lambda>t. stringify t @ [CHR 0x0A]) ts))"
proof (induction ts arbitrary: fs old)
  case Nil
  then show ?case by (simp add: fun_upd_idem)
next
  case (Cons t ts)
  let ?fs = "appendFileSync fs file (getTransactionString stringify t @ [CHR 0x0A])"
  have f: "?fs = fs(file \<mapsto> old @ stringify t @ [CHR 0x0A])"
    using Cons.prems by (simp add: appendFileSync_def getTransactionString_def)
  then have "?fs file = Some (old @ stringify t @ [CHR 0x0A])" by simp
  from Cons.IH [of ?fs "old @ stringify t @ [CHR 0x0A]", OF this]
  have "append_each stringify ?fs file ts =
      ?fs(file \<mapsto> (old @ stringify t @ [CHR 0x0A]) @ concat (map (\<lambda>t. stringify t @ [CHR 0x0A]) ts))" .
  also have "\<dots> = fs(file \<mapsto> old @ concat (map (\<lambda>t. stringify t @ [CHR 0x0A]) (t # ts)))"
    unfolding f by simp
  finally show ?case by simp
qed

lemma write_output_file:
  "write_output stringify fs blockHeader coinbase validTransactions =
     fs(''output.txt'' \<mapsto> getBlockHeaderString blockHeader @ [CHR 0x0A] @
        stringify coinbase @ [CHR 0x0A] @
        concat (map (\<lambda>t. stringify t @ [CHR 0x0A]) validTransactions))"
proof -
  let ?head = "getBlockHeaderString blockHeader @ [CHR 0x0A]"
  let ?fs2 = "appendFileSync (writeFileSync fs ''output.txt'' ?head) ''output.txt''
      (getTransactionString stringify coinbase @ [CHR 0x0A])"
  have two: "?fs2 = fs(''output.txt'' \<mapsto> ?head @ stringify coinbase @ [CHR 0x0A])"
    by (simp add: appendFileSync_def writeFileSync_def getTransactionString_def)
  then have "?fs2 ''output.txt'' = Some (?head @ stringify coinbase @ [CHR 0x0A])" by simp
  from append_each_content [of ?fs2 "''output.txt''" "?head @ stringify coinbase @ [CHR 0x0A]"
      stringify validTransactions, OF this]
  have "write_output stringify fs blockHeader coinbase validTransactions
      = ?fs2(''output.txt'' \<mapsto> (?head @ stringify coinbase @ [CHR 0x0A]) @
          concat (map (\<lambda>t. stringify t @ [CHR 0x0A]) validTransactions))"
    by (simp add: write_output_def Let_def)
  also have "\<dots> = fs(''output.txt'' \<mapsto> (?head @ stringify coinbase @ [CHR 0x0A]) @
          concat (map (\<lambda>t. stringify t @ [CHR 0x0A]) validTransactions))"
    unfolding two by simp
  finally show ?thesis by simp
qed

text \<open>
  C9. Whatever the files held before, after the report is written \<^verbatim>\<open>output.txt\<close> holds
  the six header fields in their declared order separated by single blanks, a line
  feed, the serialization of the coinbase transaction and a line feed, and then the
  serialization of each validated transaction in the order of the list, each followed
  by a line feed. No other file changes.
\<close>

theorem write_output_content:
  "write_output stringify fs blockHeader coinbase validTransactions =
     fs(''output.txt'' \<mapsto>
        (toString (version blockHeader) @ '' '' @ prevBlockHash blockHeader @ '' '' @
         merkleRoot_field blockHeader @ '' '' @ toString (timestamp blockHeader) @ '' '' @
         bits blockHeader @ '' '' @ toString (nonce blockHeader)) @ [CHR 0x0A] @
        stringify coinbase @ [CHR 0x0A] @
        concat (map (\<lambda>t. stringify t @ [CHR 0x0A]) validTransactions))"
  by (simp add: write_output_file getBlockHeaderString_def)

subsection \<open>The mining loop\<close>

lemma mine_NaN:
  "digestToNumber (getBlockHash blockHeader) = NaN \<Longrightarrow>
   mine blockHeader =
     Some (blockHeader\<lparr>nonce := round_nat (nonce blockHeader + 1)\<rparr>, getBlockHash blockHeader)"
  by (subst mine.simps) (simp add: Let_def)

lemma digestToNumber_NaN:
  assumes c: "c \<in> set s" and bad: "c \<in> set ''acdf''"
  shows "digestToNumber s = NaN"
proof -
  from bad have nd: "\<not> is_dec c" and nb: "\<not> is_bin c" and ne: "c \<noteq> CHR ''e''"
    and n0: "c \<notin> set ''0b''"
    by (auto simp: is_dec_def is_bin_def)
  from c have s: "s \<noteq> []" by auto
  from c nd have d: "\<not> list_all is_dec s" by (auto simp: list_all_iff)
  have b: "\<not> (take 2 s = ''0b'' \<and> drop 2 s \<noteq> [] \<and> list_all is_bin (drop 2 s))"
  proof
    assume a: "take 2 s = ''0b'' \<and> drop 2 s \<noteq> [] \<and> list_all is_bin (drop 2 s)"
    have "set (take 2 s @ drop 2 s) = set (take 2 s) \<union> set (drop 2 s)" by (rule set_append)
    then have "set s = set (take 2 s) \<union> set (drop 2 s)" by simp
    with c n0 a have "c \<in> set (drop 2 s)" by auto
    with a nb show False by (auto simp: list_all_iff)
  qed
  let ?m = "takeWhile is_dec s"
  let ?r = "drop (length ?m) s"
  have e: "\<not> (?m \<noteq> [] \<and> take 1 ?r = ''e'' \<and> drop (length ?m + 1) s \<noteq> []
      \<and> list_all is_dec (drop (length ?m + 1) s))"
  proof
    assume a: "?m \<noteq> [] \<and> take 1 ?r = ''e'' \<and> drop (length ?m + 1) s \<noteq> []
      \<and> list_all is_dec (drop (length ?m + 1) s)"
    have d1: "drop (length ?m + 1) s = drop 1 ?r" by (simp add: add.commute)
    have r: "?m @ ?r = s" by (simp add: dropWhile_eq_drop [symmetric])
    have split: "s = ?m @ take 1 ?r @ drop (length ?m + 1) s"
      unfolding d1 append_take_drop_id by (rule r [symmetric])
    have "c \<notin> set ?m" using nd by (auto dest: set_takeWhileD)
    moreover have "c \<notin> set (take 1 ?r)" using a ne by simp
    moreover have "c \<notin> set (drop (length ?m + 1) s)" using a nd by (auto simp: list_all_iff)
    ultimately have "c \<notin> set s" by (subst split) simp
    with c show False by simp
  qed
  show ?thesis unfolding digestToNumber_def Let_def by (simp only: s d b e if_False)
qed

lemma mine_stops:
  "c \<in> set (getBlockHash blockHeader) \<Longrightarrow> c \<in> set ''acdf'' \<Longrightarrow>
   mine blockHeader =
     Some (blockHeader\<lparr>nonce := round_nat (nonce blockHeader + 1)\<rparr>, getBlockHash blockHeader)"
  by (rule mine_NaN, rule digestToNumber_NaN)


text \<open>Rules that let the simplifier run SHA-256 on a given buffer.\<close>

lemma replicate_unfold: "replicate (numeral n) v = v # replicate (pred_numeral n) v"
  by (simp add: numeral_eq_Suc)

lemma sched_numeral:
  "sched (numeral n) ws =
     sched (pred_numeral n)
       (add32 (add32 (add32 (ssig1 (ws ! 1)) (ws ! 6)) (ssig0 (ws ! 14))) (ws ! 15) # ws)"
  by (simp add: numeral_eq_Suc)

lemma blocks_done: "drop 63 bs = [] \<Longrightarrow> blocks st bs = st"
  by (subst blocks.simps) simp

lemma blocks_step:
  "drop 63 bs \<noteq> [] \<Longrightarrow> blocks st bs = blocks (compress st (take 64 bs)) (drop 64 bs)"
  by (subst blocks.simps) simp

lemmas sha_eval = sha256_def pad_def blocks_done blocks_step compress_def H0_def K256_def
  Let_def add32_def bsig0_def bsig1_def ssig0_def ssig1_def Ch_def Maj_def rotr_def shr_def
  not32_def sched_numeral replicate_unfold word_bytes_def

text \<open>
  The header of a run on an empty mempool at the clock value 1714000000: the only
  transaction is the coinbase with value 2500000, whose serialization hashes to the
  Merkle root below.
\<close>

lemma hash0: "getBlockHash (initialHeader ''3ee6a4b81ce172fe34483c6d5b3d4268e01e3ac885d3aa67066a68a8747dc97f'' 1714000000)
   = ''f49f9646588756f45bcfab5e945d6b2bc9c92f2ee084a44ea011f474378d9828''"
  by (simp add: getBlockHash_def initialHeader_def toString.simps unhex_def sha_eval
     hex_encode_def hex_byte_def cong: let_weak_cong)

lemma mine_sample:
  "mine (initialHeader ''3ee6a4b81ce172fe34483c6d5b3d4268e01e3ac885d3aa67066a68a8747dc97f'' 1714000000)
     = Some ((initialHeader ''3ee6a4b81ce172fe34483c6d5b3d4268e01e3ac885d3aa67066a68a8747dc97f'' 1714000000)
               \<lparr>nonce := 1\<rparr>,
             ''f49f9646588756f45bcfab5e945d6b2bc9c92f2ee084a44ea011f474378d9828'')"
proof -
  let ?h = "initialHeader ''3ee6a4b81ce172fe34483c6d5b3d4268e01e3ac885d3aa67066a68a8747dc97f'' 1714000000"
  have n: "round_nat (nonce ?h + 1) = 1"
    by (simp add: initialHeader_def round_nat_id)
  have "CHR ''f'' \<in> set (getBlockHash ?h)" by (simp add: hash0)
  then have "mine ?h = Some (?h\<lparr>nonce := round_nat (nonce ?h + 1)\<rparr>, getBlockHash ?h)"
    by (rule mine_stops) simp
  then show ?thesis by (simp only: n hash0)
qed

text \<open>
  C1. On that header the loop of the source ends after its first attempt, with the
  nonce incremented to 1, although the hash read as a 256-bit unsigned integer is
  greater than the target: the hash is a string with letters, its conversion to a
  number is \<^verbatim>\<open>NaN\<close>, and \<^verbatim>\<open>NaN > target\<close> is false.
\<close>

theorem mine_first_attempt:
  "mine (initialHeader ''3ee6a4b81ce172fe34483c6d5b3d4268e01e3ac885d3aa67066a68a8747dc97f'' 1714000000)
     = Some ((initialHeader ''3ee6a4b81ce172fe34483c6d5b3d4268e01e3ac885d3aa67066a68a8747dc97f'' 1714000000)
               \<lparr>nonce := 1\<rparr>,
             ''f49f9646588756f45bcfab5e945d6b2bc9c92f2ee084a44ea011f474378d9828'')
   \<and> js_gt (Fin (int (hex_to_nat ''f49f9646588756f45bcfab5e945d6b2bc9c92f2ee084a44ea011f474378d9828''))) target"
proof -
  have g: "js_gt (Fin (int (hex_to_nat
      ''f49f9646588756f45bcfab5e945d6b2bc9c92f2ee084a44ea011f474378d9828''))) target"
    by (simp add: hex_to_nat_def unhex_def target_def)
  from mine_sample g show ?thesis by (rule conjI)
qed


subsection \<open>The program\<close>

text \<open>
  A run that ends writes the header that the loop left, the coinbase transaction and
  the accepted transactions, in the order in which the mempool listed them.
\<close>

lemma main_report:
  assumes "main stringify transactions now fs = Some (Inr fs')"
  shows "\<exists>fees root blockHeader blockHash.
      totalFees (filter validateTransaction transactions) = Inr fees
    \<and> getMerkleRoot stringify (filter validateTransaction transactions @ [coinbaseTransaction fees])
        = Some root
    \<and> mine (initialHeader root now) = Some (blockHeader, blockHash)
    \<and> fs' = fs(''output.txt'' \<mapsto> getBlockHeaderString blockHeader @ [CHR 0x0A] @
        stringify (coinbaseTransaction fees) @ [CHR 0x0A] @
        concat (map (\<lambda>t. stringify t @ [CHR 0x0A]) (filter validateTransaction transactions)))"
  using assms unfolding main_def Let_def
  by (auto split: sum.splits option.splits simp: write_output_file)

text \<open>
  The run on an empty mempool at the clock value 1714000000: the report carries the
  nonce 1, the header whose hash the loop never compared as an integer.
\<close>

lemma coinbase_leaf:
  "hex_encode (sha256 (utf8 coinbase_json)) =
     ''3ee6a4b81ce172fe34483c6d5b3d4268e01e3ac885d3aa67066a68a8747dc97f''"
  by (simp add: coinbase_json_def sha_eval utf8_def hex_encode_def hex_byte_def
      cong: let_weak_cong)

lemma main_empty_mempool:
  "main stringify_coinbase [] 1714000000 fs =
     Some (Inr (fs(''output.txt'' \<mapsto>
       ''1 0000000000000000000000000000000000000000000000000000000000000000 3ee6a4b81ce172fe34483c6d5b3d4268e01e3ac885d3aa67066a68a8747dc97f 1714000000 0000ffff00000000000000000000000000000000000000000000000000000000 1''
       @ [CHR 0x0A] @ coinbase_json @ [CHR 0x0A])))"
proof -
  have root: "getMerkleRoot stringify_coinbase [coinbaseTransaction (Fin 0)]
      = Some ''3ee6a4b81ce172fe34483c6d5b3d4268e01e3ac885d3aa67066a68a8747dc97f''"
    by (subst getMerkleRoot_def, subst merkleRoot.simps)
      (simp add: stringify_coinbase_def coinbase_leaf)
  have line: "getBlockHeaderString
      ((initialHeader ''3ee6a4b81ce172fe34483c6d5b3d4268e01e3ac885d3aa67066a68a8747dc97f'' 1714000000)
        \<lparr>nonce := 1\<rparr>) =
      ''1 0000000000000000000000000000000000000000000000000000000000000000 3ee6a4b81ce172fe34483c6d5b3d4268e01e3ac885d3aa67066a68a8747dc97f 1714000000 0000ffff00000000000000000000000000000000000000000000000000000000 1''"
    by (simp add: getBlockHeaderString_def initialHeader_def toString.simps)
  have m: "main stringify_coinbase [] 1714000000 fs =
      Some (Inr (write_output stringify_coinbase fs
        ((initialHeader ''3ee6a4b81ce172fe34483c6d5b3d4268e01e3ac885d3aa67066a68a8747dc97f'' 1714000000)
          \<lparr>nonce := 1\<rparr>)
        (coinbaseTransaction (Fin 0)) []))"
    unfolding main_def Let_def by (simp add: totalFees_def root mine_sample)
  show ?thesis unfolding m write_output_file line by (simp add: stringify_coinbase_def)
qed

end
